theory Spec2Isabelle
  imports Main
begin

section \<open>Data model of \<^verbatim>\<open>card_fuzzer.py\<close>\<close>

text \<open>
  An APDU header is the Python list \<^verbatim>\<open>[_class, instruction, p1, p2]\<close> of unbounded
  integers; the yielded tuples have the same four components.
\<close>

type_synonym apdu = "int \<times> int \<times> int \<times> int"

definition instruction_of :: "apdu \<Rightarrow> int" where
  "instruction_of a = (case a of (c, i, p1, p2) \<Rightarrow> i)"

text \<open>The inner class \<^verbatim>\<open>Status\<close>, in the order of the source.\<close>

datatype Status = SUCCES | FAILED | PARAM_FAIL

text \<open>
  The exceptions of the program. All of them derive from Python's \<^verbatim>\<open>Exception\<close>:
  \<^verbatim>\<open>SWException\<close> and \<^verbatim>\<open>CardRequestTimeoutException\<close> come from the card library,
  \<^verbatim>\<open>OtherException\<close> stands for any other \<^verbatim>\<open>Exception\<close> the connection raises,
  \<^verbatim>\<open>AttributeError\<close> and \<^verbatim>\<open>NameError\<close> are raised by the interpreter.
\<close>

datatype exn =
    SWException
  | CardRequestTimeoutException
  | OtherException
  | AttributeError
  | NameError

text \<open>The lines written through \<^verbatim>\<open>logging\<close>, one constructor per call site.\<close>

datatype log_entry =
    Send apdu
  | Returned "int list" int int
  | ApduSucces
  | PartialSucces
  | ApduFailed
  | GotSWException exn
  | HorriblyWrong exn

text \<open>
  \<^verbatim>\<open>self.cardservice.connection.transmit(apdu)\<close> is external: from the state of the
  connection and the command it gives the response \<^verbatim>\<open>(response, sw1, sw2)\<close> or raises,
  and leaves the connection in a new state.
\<close>

type_synonym 'c transmit = "'c \<Rightarrow> apdu \<Rightarrow> (exn + int list \<times> int \<times> int) \<times> 'c"

text \<open>
  A drained generator: the values it yielded, the exception that ended it (\<open>None\<close> when
  it ran to its end), the log lines it wrote, and the connection it left.
\<close>

record ('y, 'c) run =
  yielded :: "'y list"
  raised :: "exn option"
  logged :: "log_entry list"
  conn :: "'c"

definition finished :: "'c \<Rightarrow> ('y, 'c) run" where
  "finished k = \<lparr>yielded = [], raised = None, logged = [], conn = k\<rparr>"

definition raise :: "exn \<Rightarrow> log_entry list \<Rightarrow> 'c \<Rightarrow> ('y, 'c) run" where
  "raise e l k = \<lparr>yielded = [], raised = Some e, logged = l, conn = k\<rparr>"

text \<open>What happened first (\<open>ys\<close> yielded, \<open>l\<close> logged), followed by the rest of the run.\<close>

definition after :: "'y list \<Rightarrow> log_entry list \<Rightarrow> ('y, 'c) run \<Rightarrow> ('y, 'c) run" where
  "after ys l r = r\<lparr>yielded := ys @ yielded r, logged := l @ logged r\<rparr>"

section \<open>Status tables\<close>

definition BAD_INSTRUCTIONS :: "int list" where
  "BAD_INSTRUCTIONS = [0x20, 0x24]"

definition SUCCESS_LIST_RESP :: "int list" where
  "SUCCESS_LIST_RESP = [0x90, 0x61, 0x67, 0x6c, 0x6a]"

definition SUCCESS_BAD_PARAM_RESP :: "(int \<times> int) list" where
  "SUCCESS_BAD_PARAM_RESP = [(0x6a, 0x86)]"

definition SUCCESS_FAIL_RESP :: "(int \<times> int) list" where
  "SUCCESS_FAIL_RESP = [(0x6a, 0x81)]"

definition UNSUPPORTED_RESP :: "(int \<times> int) list" where
  "UNSUPPORTED_RESP = [(0x6E, 0x00)]"

text \<open>\<^verbatim>\<open>range(0xFF + 1)\<close>\<close>

definition range256 :: "int list" where
  "range256 = [0..255]"

section \<open>Sending and classifying\<close>

text \<open>\<^verbatim>\<open>__send_apdu\<close>: log the command, transmit it, log what came back.\<close>

definition send_apdu ::
  "'c transmit \<Rightarrow> 'c \<Rightarrow> int \<Rightarrow> int \<Rightarrow> int \<Rightarrow> int \<Rightarrow> (exn + int list \<times> int \<times> int) \<times> log_entry list \<times> 'c" where
  "send_apdu tx k c i p1 p2 =
     (let apdu = (c, i, p1, p2) in
      case tx k apdu of
        (Inl e, k') \<Rightarrow> (Inl e, [Send apdu], k')
      | (Inr (response, sw1, sw2), k') \<Rightarrow>
          (Inr (response, sw1, sw2), [Send apdu, Returned response sw1 sw2], k'))"

text \<open>\<^verbatim>\<open>__get_succes\<close>: the outcome and the line it logs.\<close>

definition get_succes :: "int \<Rightarrow> int \<Rightarrow> Status \<times> log_entry list" where
  "get_succes sw1 sw2 =
     (if sw1 \<in> set SUCCESS_LIST_RESP
         \<and> (sw1, sw2) \<notin> set SUCCESS_FAIL_RESP
         \<and> (sw1, sw2) \<notin> set SUCCESS_BAD_PARAM_RESP
      then (SUCCES, [ApduSucces])
      else if (sw1, sw2) \<in> set SUCCESS_BAD_PARAM_RESP
      then (PARAM_FAIL, [PartialSucces])
      else (FAILED, [ApduFailed]))"

section \<open>The enumerators\<close>

text \<open>
  One pass of the loop of \<^verbatim>\<open>_class_fuzzer\<close> up to its \<^verbatim>\<open>if\<close>: the status pair starts as
  \<^verbatim>\<open>UNSUPPORTED_RESP[0]\<close> and is overwritten only when the transmission returns; both
  \<^verbatim>\<open>except\<close> clauses log and go on.
\<close>

definition class_probe :: "'c transmit \<Rightarrow> 'c \<Rightarrow> int \<Rightarrow> (int \<times> int) \<times> log_entry list \<times> 'c" where
  "class_probe tx k c =
     (case send_apdu tx k c 0x00 0x00 0x00 of
        (Inr (response, sw1, sw2), l, k') \<Rightarrow> ((sw1, sw2), l, k')
      | (Inl e, l, k') \<Rightarrow>
          (UNSUPPORTED_RESP ! 0,
           l @ [if e = SWException then GotSWException e else HorriblyWrong e], k'))"

text \<open>
  \<^verbatim>\<open>for _class in self._class_fuzzer(): body\<close>. The generator is lazy: it is resumed
  only when the body of the consuming loop is done, so the body runs for a class before
  the next class is probed, and an exception of the body ends the loop.
\<close>

fun class_fuzzer_for ::
  "'c transmit \<Rightarrow> (int \<Rightarrow> 'c \<Rightarrow> ('y, 'c) run) \<Rightarrow> int list \<Rightarrow> 'c \<Rightarrow> ('y, 'c) run" where
  "class_fuzzer_for tx body [] k = finished k"
| "class_fuzzer_for tx body (c # cs) k =
     (case class_probe tx k c of (sw, l, k1) \<Rightarrow>
        if sw \<notin> set UNSUPPORTED_RESP then
          (let r = body c k1 in
           case raised r of
             Some e \<Rightarrow> after [] l r
           | None \<Rightarrow> after [] l (after (yielded r) (logged r) (class_fuzzer_for tx body cs (conn r))))
        else after [] l (class_fuzzer_for tx body cs k1))"

text \<open>\<^verbatim>\<open>_class_fuzzer\<close> drained by a consumer that only collects the classes.\<close>

definition class_fuzzer :: "'c transmit \<Rightarrow> 'c \<Rightarrow> (int, 'c) run" where
  "class_fuzzer tx k = class_fuzzer_for tx (\<lambda>c k1. after [c] [] (finished k1)) range256 k"

text \<open>
  \<^verbatim>\<open>_param_fuzzer\<close>, inner loop over \<^verbatim>\<open>p2\<close> for one \<^verbatim>\<open>p1\<close>. Nothing catches an exception
  of \<^verbatim>\<open>__send_apdu\<close>. On \<^verbatim>\<open>SUCCES\<close> the tuple to yield is built from the name \<^verbatim>\<open>ins\<close>,
  which is bound nowhere (the parameter is called \<^verbatim>\<open>instruction\<close>): \<^verbatim>\<open>NameError\<close>.
\<close>

fun param_fuzzer_p2 ::
  "'c transmit \<Rightarrow> int \<Rightarrow> int \<Rightarrow> int \<Rightarrow> int list \<Rightarrow> 'c \<Rightarrow> (apdu, 'c) run" where
  "param_fuzzer_p2 tx c i p1 [] k = finished k"
| "param_fuzzer_p2 tx c i p1 (p2 # p2s) k =
     (case send_apdu tx k c i p1 p2 of
        (Inl e, l, k1) \<Rightarrow> raise e l k1
      | (Inr (response, sw1, sw2), l, k1) \<Rightarrow>
          (case get_succes sw1 sw2 of (succes, l2) \<Rightarrow>
             if succes = SUCCES then raise NameError (l @ l2) k1
             else after [] (l @ l2) (param_fuzzer_p2 tx c i p1 p2s k1)))"

text \<open>The outer loop over \<^verbatim>\<open>p1\<close>.\<close>

fun param_fuzzer_p1 ::
  "'c transmit \<Rightarrow> int \<Rightarrow> int \<Rightarrow> int list \<Rightarrow> 'c \<Rightarrow> (apdu, 'c) run" where
  "param_fuzzer_p1 tx c i [] k = finished k"
| "param_fuzzer_p1 tx c i (p1 # p1s) k =
     (let r = param_fuzzer_p2 tx c i p1 range256 k in
      case raised r of
        Some e \<Rightarrow> r
      | None \<Rightarrow> after (yielded r) (logged r) (param_fuzzer_p1 tx c i p1s (conn r)))"

text \<open>\<^verbatim>\<open>_param_fuzzer\<close> (an Isabelle name cannot start with an underscore).\<close>

definition param_fuzzer :: "'c transmit \<Rightarrow> int \<Rightarrow> int \<Rightarrow> 'c \<Rightarrow> (apdu, 'c) run" where
  "param_fuzzer tx c i k = param_fuzzer_p1 tx c i range256 k"

text \<open>
  The loop of \<^verbatim>\<open>_instruction_fuzzer\<close>. Nothing catches an exception of \<^verbatim>\<open>__send_apdu\<close>.
  On \<^verbatim>\<open>PARAM_FAIL\<close> the source evaluates \<^verbatim>\<open>self.param_fuzzer\<close>; the class only has
  \<^verbatim>\<open>_param_fuzzer\<close>, so the attribute lookup raises \<^verbatim>\<open>AttributeError\<close> before anything
  is called.
\<close>

fun instruction_loop ::
  "'c transmit \<Rightarrow> int \<Rightarrow> int list \<Rightarrow> 'c \<Rightarrow> (apdu, 'c) run" where
  "instruction_loop tx c [] k = finished k"
| "instruction_loop tx c (i # is) k =
     (if i \<in> set BAD_INSTRUCTIONS then instruction_loop tx c is k
      else
        case send_apdu tx k c i 0x00 0x00 of
          (Inl e, l, k1) \<Rightarrow> raise e l k1
        | (Inr (respsonse, sw1, sw2), l, k1) \<Rightarrow>
            (case get_succes sw1 sw2 of (succes, l2) \<Rightarrow>
               if succes = SUCCES then
                 after [(c, i, 0x00, 0x00)] (l @ l2) (instruction_loop tx c is k1)
               else if succes = PARAM_FAIL then raise AttributeError (l @ l2) k1
               else after [] (l @ l2) (instruction_loop tx c is k1)))"

definition instruction_fuzzer :: "'c transmit \<Rightarrow> int \<Rightarrow> 'c \<Rightarrow> (apdu, 'c) run" where
  "instruction_fuzzer tx c k = instruction_loop tx c range256 k"

text \<open>\<^verbatim>\<open>fuzz\<close>: every value of the instruction sweep of every yielded class.\<close>

definition fuzz :: "'c transmit \<Rightarrow> 'c \<Rightarrow> (apdu, 'c) run" where
  "fuzz tx k = class_fuzzer_for tx (\<lambda>valid_class k1. instruction_fuzzer tx valid_class k1) range256 k"

section \<open>Construction and entry point\<close>

text \<open>The object built by \<^verbatim>\<open>__init__\<close>.\<close>

record 'c fuzzer =
  timeout :: int
  cardservice :: "'c"

text \<open>
  \<^verbatim>\<open>__get_card\<close>. The card library is external: \<open>waitforcard\<close> stands for
  \<^verbatim>\<open>CardRequest(timeout=..., cardType=AnyCardType()).waitforcard()\<close>, which returns a
  card service or raises (\<^verbatim>\<open>CardRequestTimeoutException\<close> when no card shows up in
  time), \<open>connect\<close> for \<^verbatim>\<open>cardservice.connection.connect()\<close>. Nothing is caught.
\<close>

definition get_card :: "(int \<Rightarrow> exn + 's) \<Rightarrow> ('s \<Rightarrow> exn + 'c) \<Rightarrow> int \<Rightarrow> exn + 'c" where
  "get_card waitforcard connect t =
     (case waitforcard t of
        Inl e \<Rightarrow> Inl e
      | Inr service \<Rightarrow> (case connect service of Inl e \<Rightarrow> Inl e | Inr k \<Rightarrow> Inr k))"

text \<open>\<^verbatim>\<open>__init__(self, timeout=30, log_file=...)\<close>\<close>

definition init :: "(int \<Rightarrow> exn + 's) \<Rightarrow> ('s \<Rightarrow> exn + 'c) \<Rightarrow> int \<Rightarrow> exn + 'c fuzzer" where
  "init waitforcard connect t =
     (case get_card waitforcard connect t of
        Inl e \<Rightarrow> Inl e
      | Inr k \<Rightarrow> Inr \<lparr>timeout = t, cardservice = k\<rparr>)"

text \<open>
  \<^verbatim>\<open>main\<close>: build the fuzzer with the default timeout, then print every command of
  \<^verbatim>\<open>fuzz()\<close>. The result is what was printed, the exception that ended the process
  (if any) and the log lines written.
\<close>

definition main ::
  "(int \<Rightarrow> exn + 's) \<Rightarrow> ('s \<Rightarrow> exn + 'c) \<Rightarrow> 'c transmit \<Rightarrow> apdu list \<times> exn option \<times> log_entry list" where
  "main waitforcard connect tx =
     (case init waitforcard connect 30 of
        Inl e \<Rightarrow> ([], Some e, [])
      | Inr smart_fuzzer \<Rightarrow>
          (let r = fuzz tx (cardservice smart_fuzzer) in (yielded r, raised r, logged r)))"

section \<open>Reading a run\<close>

text \<open>The commands handed to the connection: one \<open>Send\<close> line is written per transmission.\<close>

fun sent :: "log_entry list \<Rightarrow> apdu list" where
  "sent [] = []"
| "sent (Send a # l) = a # sent l"
| "sent (e # l) = sent l"

text \<open>The command of the last \<open>Send\<close> line, starting from \<open>cur\<close>.\<close>

fun current :: "apdu option \<Rightarrow> log_entry list \<Rightarrow> apdu option" where
  "current cur [] = cur"
| "current cur (Send a # l) = current (Some a) l"
| "current cur (e # l) = current cur l"

text \<open>
  The probes that \<^verbatim>\<open>__get_succes\<close> classified, in order: every outcome line belongs to
  the command of the \<open>Send\<close> line before it.
\<close>

fun classified :: "apdu option \<Rightarrow> log_entry list \<Rightarrow> (apdu \<times> Status) list" where
  "classified cur [] = []"
| "classified cur (Send a # l) = classified (Some a) l"
| "classified cur (ApduSucces # l) =
     (case cur of Some a \<Rightarrow> [(a, SUCCES)] | None \<Rightarrow> []) @ classified cur l"
| "classified cur (PartialSucces # l) =
     (case cur of Some a \<Rightarrow> [(a, PARAM_FAIL)] | None \<Rightarrow> []) @ classified cur l"
| "classified cur (ApduFailed # l) =
     (case cur of Some a \<Rightarrow> [(a, FAILED)] | None \<Rightarrow> []) @ classified cur l"
| "classified cur (e # l) = classified cur l"

text \<open>The connection after the commands \<open>as\<close> were transmitted in turn.\<close>

definition card_after :: "'c transmit \<Rightarrow> 'c \<Rightarrow> apdu list \<Rightarrow> 'c" where
  "card_after tx k as = fold (\<lambda>a k'. snd (tx k' a)) as k"

text \<open>Whether the class probe of \<open>c\<close>, sent to the connection \<open>k\<close>, is answered by
  something else than the marker of an unsupported class.\<close>

definition acknowledged :: "'c transmit \<Rightarrow> 'c \<Rightarrow> int \<Rightarrow> bool" where
  "acknowledged tx k c =
     (case fst (tx k (c, 0, 0, 0)) of
        Inl e \<Rightarrow> False
      | Inr (response, sw1, sw2) \<Rightarrow> (sw1, sw2) \<noteq> (0x6E, 0x00))"

text \<open>The status words of a transmission, without the response data.\<close>

definition status_of :: "(exn + int list \<times> int \<times> int) \<Rightarrow> (int \<times> int) option" where
  "status_of r = (case r of Inl e \<Rightarrow> None | Inr (response, sw1, sw2) \<Rightarrow> Some (sw1, sw2))"

text \<open>
  Two cards that, from connections related by \<open>R\<close>, answer every command with the same
  status words (or both raise) and stay related; the response data may differ.
\<close>

definition same_status :: "('c \<Rightarrow> 'd \<Rightarrow> bool) \<Rightarrow> 'c transmit \<Rightarrow> 'd transmit \<Rightarrow> bool" where
  "same_status R tx1 tx2 =
     (\<forall>k1 k2 a. R k1 k2 \<longrightarrow>
        status_of (fst (tx1 k1 a)) = status_of (fst (tx2 k2 a))
        \<and> R (snd (tx1 k1 a)) (snd (tx2 k2 a)))"

text \<open>The consumer that only collects the classes of \<^verbatim>\<open>_class_fuzzer\<close>.\<close>

abbreviation collect :: "int \<Rightarrow> 'c \<Rightarrow> (int, 'c) run" where
  "collect \<equiv> (\<lambda>c k1. after [c] [] (finished k1))"

section \<open>Example cards\<close>

text \<open>
  Scenario B: only class 0x80 is recognised; its instruction 0x10 answers (0x6A, 0x86)
  except with the parameters (0x01, 0x02), which answer (0x90, 0x00); every other
  instruction of the class answers (0x6D, 0x00).
\<close>

definition scenario_B :: "unit transmit" where
  "scenario_B k a =
     (case a of (c, i, p1, p2) \<Rightarrow>
        if c \<noteq> 0x80 then (Inr ([], 0x6E, 0x00), k)
        else if i \<noteq> 0x10 then (Inr ([], 0x6D, 0x00), k)
        else if p1 = 0x01 \<and> p2 = 0x02 then (Inr ([], 0x90, 0x00), k)
        else (Inr ([], 0x6A, 0x86), k))"

text \<open>Scenario D: the transmission of instruction 0x05 raises, every other one succeeds.\<close>

definition scenario_D :: "unit transmit" where
  "scenario_D k a =
     (case a of (c, i, p1, p2) \<Rightarrow>
        if i = 0x05 then (Inl SWException, k) else (Inr ([], 0x90, 0x00), k))"

text \<open>The same status words as scenario D, with response data that change at every
  transmission.\<close>

definition scenario_D_data :: "nat transmit" where
  "scenario_D_data k a =
     (case a of (c, i, p1, p2) \<Rightarrow>
        if i = 0x05 then (Inl SWException, Suc k)
        else (Inr ([c, i, int k], 0x90, 0x00), Suc k))"

text \<open>A card that answers (0x90, 0x00) to everything.\<close>

definition card_9000 :: "unit transmit" where
  "card_9000 k a = (Inr ([], 0x90, 0x00), k)"

text \<open>A card that answers (0x6D, 0x00), instruction not supported, to everything.\<close>

definition card_6D00 :: "unit transmit" where
  "card_6D00 k a = (Inr ([], 0x6D, 0x00), k)"

text \<open>A card with one success, one failure and then a parameter failure.\<close>

definition card_mixed :: "unit transmit" where
  "card_mixed k a =
     (case a of (c, i, p1, p2) \<Rightarrow>
        if i = 0x00 then (Inr ([], 0x90, 0x00), k)
        else if i = 0x01 then (Inr ([], 0x6D, 0x00), k)
        else (Inr ([], 0x6A, 0x86), k))"

text \<open>A card that recognises class 0x80 only and whose transmission raises for the
  classes 0x05 and 0x06.\<close>

definition card_classes :: "unit transmit" where
  "card_classes k a =
     (case a of (c, i, p1, p2) \<Rightarrow>
        if c = 0x80 then (Inr ([], 0x90, 0x00), k)
        else if c = 0x05 then (Inl SWException, k)
        else if c = 0x06 then (Inl OtherException, k)
        else (Inr ([], 0x6E, 0x00), k))"

text \<open>A reader on which a card shows up after 60 time units.\<close>

definition late_card :: "int \<Rightarrow> exn + unit" where
  "late_card t = (if t < 60 then Inl CardRequestTimeoutException else Inr ())"

section \<open>Classification\<close>

lemma in_SUCCESS_LIST_RESP:
  "sw1 \<in> set SUCCESS_LIST_RESP \<longleftrightarrow> sw1 = 0x90 \<or> sw1 = 0x61 \<or> sw1 = 0x67 \<or> sw1 = 0x6c \<or> sw1 = 0x6a"
  by (auto simp: SUCCESS_LIST_RESP_def)

lemma in_SUCCESS_BAD_PARAM_RESP:
  "(sw1, sw2) \<in> set SUCCESS_BAD_PARAM_RESP \<longleftrightarrow> sw1 = 0x6a \<and> sw2 = 0x86"
  by (simp add: SUCCESS_BAD_PARAM_RESP_def)

lemma in_SUCCESS_FAIL_RESP:
  "(sw1, sw2) \<in> set SUCCESS_FAIL_RESP \<longleftrightarrow> sw1 = 0x6a \<and> sw2 = 0x81"
  by (simp add: SUCCESS_FAIL_RESP_def)

text \<open>
  C2. The outcome of \<^verbatim>\<open>__get_succes\<close> follows the three rules in order: it is \<open>SUCCES\<close>
  exactly when \<open>sw1\<close> is in the success list and the pair is in neither the
  parameter-failure nor the hard-failure list; otherwise it is \<open>PARAM_FAIL\<close> exactly when
  the pair is in the parameter-failure list; otherwise it is \<open>FAILED\<close>. The outcome is a
  function of the pair alone, for all integers and so for all bytes.
\<close>

theorem get_succes_three_rules:
  "(fst (get_succes sw1 sw2) = SUCCES) =
     (sw1 \<in> set SUCCESS_LIST_RESP \<and> (sw1, sw2) \<notin> set SUCCESS_BAD_PARAM_RESP
        \<and> (sw1, sw2) \<notin> set SUCCESS_FAIL_RESP)
   \<and> (fst (get_succes sw1 sw2) = PARAM_FAIL) =
     ((sw1, sw2) \<in> set SUCCESS_BAD_PARAM_RESP
        \<and> \<not> (sw1 \<in> set SUCCESS_LIST_RESP \<and> (sw1, sw2) \<notin> set SUCCESS_BAD_PARAM_RESP
               \<and> (sw1, sw2) \<notin> set SUCCESS_FAIL_RESP))
   \<and> (fst (get_succes sw1 sw2) = FAILED) =
     ((sw1, sw2) \<notin> set SUCCESS_BAD_PARAM_RESP
        \<and> \<not> (sw1 \<in> set SUCCESS_LIST_RESP \<and> (sw1, sw2) \<notin> set SUCCESS_BAD_PARAM_RESP
               \<and> (sw1, sw2) \<notin> set SUCCESS_FAIL_RESP))"
  by (simp add: get_succes_def)

theorem get_succes_three_rules_witness:
  "fst (get_succes 0x90 0x00) = SUCCES \<and> fst (get_succes 0x6a 0x86) = PARAM_FAIL
   \<and> fst (get_succes 0x6a 0x81) = FAILED \<and> fst (get_succes 0x6E 0x00) = FAILED"
  using get_succes_three_rules [of "0x90" "0x00"] get_succes_three_rules [of "0x6a" "0x86"]
    get_succes_three_rules [of "0x6a" "0x81"] get_succes_three_rules [of "0x6E" "0x00"]
  by (simp add: in_SUCCESS_LIST_RESP in_SUCCESS_BAD_PARAM_RESP in_SUCCESS_FAIL_RESP)

text \<open>
  C9. The tables as the code fixes them: a first status byte among 0x90, 0x61, 0x67, 0x6c
  is a success whatever the second byte; with 0x6a the outcome is a success exactly when
  the second byte is neither 0x81 nor 0x86, (0x6a, 0x86) being the parameter failure and
  (0x6a, 0x81) the failure; any other first byte is a failure.
\<close>

theorem get_succes_tables:
  "fst (get_succes 0x90 sw2) = SUCCES
   \<and> fst (get_succes 0x61 sw2) = SUCCES
   \<and> fst (get_succes 0x67 sw2) = SUCCES
   \<and> fst (get_succes 0x6c sw2) = SUCCES
   \<and> (fst (get_succes 0x6a sw2) = SUCCES) = (sw2 \<notin> {0x81, 0x86})
   \<and> fst (get_succes 0x6a 0x86) = PARAM_FAIL
   \<and> fst (get_succes 0x6a 0x81) = FAILED
   \<and> (sw1 \<notin> {0x90, 0x61, 0x67, 0x6c, 0x6a} \<longrightarrow> fst (get_succes sw1 sw2) = FAILED)"
  by (simp add: get_succes_def in_SUCCESS_LIST_RESP in_SUCCESS_BAD_PARAM_RESP in_SUCCESS_FAIL_RESP)

theorem get_succes_tables_witness:
  "(0x6E::int) \<notin> {0x90, 0x61, 0x67, 0x6c, 0x6a} \<and> fst (get_succes 0x6E 0x00) = FAILED
   \<and> fst (get_succes 0x6a 0x00) = SUCCES"
  using get_succes_tables [of "0x00" "0x6E"]
  by simp

section \<open>Reading the log of the loops\<close>

lemma sent_append: "sent (l @ l') = sent l @ sent l'"
  by (induction l rule: sent.induct) simp_all

lemma send_apdu_cases:
  obtains (Raises) e k' where "tx k (c, i, p1, p2) = (Inl e, k')"
      and "send_apdu tx k c i p1 p2 = (Inl e, [Send (c, i, p1, p2)], k')"
  | (Returns) d sw1 sw2 k' where "tx k (c, i, p1, p2) = (Inr (d, sw1, sw2), k')"
      and "send_apdu tx k c i p1 p2 = (Inr (d, sw1, sw2), [Send (c, i, p1, p2), Returned d sw1 sw2], k')"
proof (cases "tx k (c, i, p1, p2)")
  case (Pair r k')
  show thesis
  proof (cases r)
    case (Inl e)
    with Pair show thesis by (intro Raises[of e k']) (simp_all add: send_apdu_def)
  next
    case (Inr t)
    obtain d sw1 sw2 where "t = (d, sw1, sw2)" by (cases t) auto
    with Pair Inr show thesis by (intro Returns[of d sw1 sw2 k']) (simp_all add: send_apdu_def)
  qed
qed

lemma get_succes_disj:
  "get_succes sw1 sw2 = (SUCCES, [ApduSucces])
   \<or> get_succes sw1 sw2 = (PARAM_FAIL, [PartialSucces])
   \<or> get_succes sw1 sw2 = (FAILED, [ApduFailed])"
  by (simp add: get_succes_def)

lemma get_succes_cases:
  obtains (Succes) "get_succes sw1 sw2 = (SUCCES, [ApduSucces])"
  | (Param) "get_succes sw1 sw2 = (PARAM_FAIL, [PartialSucces])"
  | (Failed) "get_succes sw1 sw2 = (FAILED, [ApduFailed])"
  using get_succes_disj[of sw1 sw2] by blast


lemma classified_append:
  "classified cur (l @ l') = classified cur l @ classified (current cur l) l'"
  by (induction cur l rule: classified.induct) simp_all

lemma instruction_loop_induct [case_names Nil Skip Raises Succes Param Failed]:
  assumes "\<And>k. P [] k"
    and "\<And>i is k. i \<in> set BAD_INSTRUCTIONS
           \<Longrightarrow> instruction_loop tx c (i # is) k = instruction_loop tx c is k
           \<Longrightarrow> P is k \<Longrightarrow> P (i # is) k"
    and "\<And>i is k e k'. i \<notin> set BAD_INSTRUCTIONS \<Longrightarrow> tx k (c, i, 0, 0) = (Inl e, k')
           \<Longrightarrow> instruction_loop tx c (i # is) k = raise e [Send (c, i, 0, 0)] k'
           \<Longrightarrow> P (i # is) k"
    and "\<And>i is k d sw1 sw2 k'. i \<notin> set BAD_INSTRUCTIONS
           \<Longrightarrow> tx k (c, i, 0, 0) = (Inr (d, sw1, sw2), k')
           \<Longrightarrow> get_succes sw1 sw2 = (SUCCES, [ApduSucces])
           \<Longrightarrow> instruction_loop tx c (i # is) k =
                 after [(c, i, 0, 0)] [Send (c, i, 0, 0), Returned d sw1 sw2, ApduSucces]
                   (instruction_loop tx c is k')
           \<Longrightarrow> P is k' \<Longrightarrow> P (i # is) k"
    and "\<And>i is k d sw1 sw2 k'. i \<notin> set BAD_INSTRUCTIONS
           \<Longrightarrow> tx k (c, i, 0, 0) = (Inr (d, sw1, sw2), k')
           \<Longrightarrow> get_succes sw1 sw2 = (PARAM_FAIL, [PartialSucces])
           \<Longrightarrow> instruction_loop tx c (i # is) k =
                 raise AttributeError [Send (c, i, 0, 0), Returned d sw1 sw2, PartialSucces] k'
           \<Longrightarrow> P (i # is) k"
    and "\<And>i is k d sw1 sw2 k'. i \<notin> set BAD_INSTRUCTIONS
           \<Longrightarrow> tx k (c, i, 0, 0) = (Inr (d, sw1, sw2), k')
           \<Longrightarrow> get_succes sw1 sw2 = (FAILED, [ApduFailed])
           \<Longrightarrow> instruction_loop tx c (i # is) k =
                 after [] [Send (c, i, 0, 0), Returned d sw1 sw2, ApduFailed]
                   (instruction_loop tx c is k')
           \<Longrightarrow> P is k' \<Longrightarrow> P (i # is) k"
  shows "P is k"
proof (induction "is" arbitrary: k)
  case Nil
  show ?case by (rule assms(1))
next
  case (Cons i "is")
  show ?case
  proof (cases "i \<in> set BAD_INSTRUCTIONS")
    case True
    show ?thesis by (rule assms(2)[OF True _ Cons]) (simp add: True)
  next
    case False
    show ?thesis
    proof (cases rule: send_apdu_cases[of tx k c i 0 0])
      case (Raises e k')
      show ?thesis by (rule assms(3)[OF False Raises(1)]) (simp add: False Raises(2))
    next
      case (Returns d sw1 sw2 k')
      show ?thesis
      proof (cases rule: get_succes_cases[of sw1 sw2])
        case Succes
        show ?thesis
          by (rule assms(4)[OF False Returns(1) Succes _ Cons]) (simp add: False Returns(2) Succes)
      next
        case Param
        show ?thesis
          by (rule assms(5)[OF False Returns(1) Param]) (simp add: False Returns(2) Param)
      next
        case Failed
        show ?thesis
          by (rule assms(6)[OF False Returns(1) Failed _ Cons]) (simp add: False Returns(2) Failed)
      qed
    qed
  qed
qed

lemma sent_instruction_loop:
  "set (sent (logged (instruction_loop tx c is k))) \<subseteq> (\<lambda>i. (c, i, 0, 0)) ` (set is - set BAD_INSTRUCTIONS)"
  by (induction "is" k rule: instruction_loop_induct[where tx = tx and c = c])
    (auto simp: finished_def raise_def after_def)

lemma yielded_instruction_loop:
  "yielded (instruction_loop tx c is k) =
     map fst (filter (\<lambda>p. snd p = SUCCES) (classified cur (logged (instruction_loop tx c is k))))"
  by (induction "is" k arbitrary: cur rule: instruction_loop_induct[where tx = tx and c = c])
    (simp_all add: finished_def raise_def after_def)

lemma classified_instruction_loop:
  "set (map fst (classified cur (logged (instruction_loop tx c is k)))) \<subseteq> (\<lambda>i. (c, i, 0, 0)) ` set is
   \<and> (distinct is \<longrightarrow> distinct (map fst (classified cur (logged (instruction_loop tx c is k)))))"
  by (induction "is" k arbitrary: cur rule: instruction_loop_induct[where tx = tx and c = c])
    (auto simp: finished_def raise_def after_def)


lemma class_probe_cases:
  obtains (Raises) e k' x where "tx k (c, 0, 0, 0) = (Inl e, k')"
      and "class_probe tx k c = ((0x6E, 0x00), [Send (c, 0, 0, 0), x], k')"
      and "x = GotSWException e \<or> x = HorriblyWrong e"
  | (Returns) d sw1 sw2 k' where "tx k (c, 0, 0, 0) = (Inr (d, sw1, sw2), k')"
      and "class_probe tx k c = ((sw1, sw2), [Send (c, 0, 0, 0), Returned d sw1 sw2], k')"
proof (cases rule: send_apdu_cases[of tx k c 0 0 0])
  case (Raises e k')
  show ?thesis
    by (rule that(1)[OF Raises(1), of "if e = SWException then GotSWException e else HorriblyWrong e"])
      (simp_all add: class_probe_def Raises(2) UNSUPPORTED_RESP_def)
next
  case (Returns d sw1 sw2 k')
  show ?thesis
    by (rule that(2)[OF Returns(1)]) (simp add: class_probe_def Returns(2))
qed

lemma class_probe_log:
  assumes "class_probe tx k c = (sw, l, k1)"
  shows "sent l = [(c, 0, 0, 0)]"
    and "classified cur l = []"
    and "current cur l = Some (c, 0, 0, 0)"
    and "k1 = snd (tx k (c, 0, 0, 0))"
    and "sw \<notin> set UNSUPPORTED_RESP \<longleftrightarrow>
           (case fst (tx k (c, 0, 0, 0)) of Inl e \<Rightarrow> False
            | Inr (response, sw1, sw2) \<Rightarrow> (sw1, sw2) \<noteq> (0x6E, 0x00))"
  using assms by (cases rule: class_probe_cases[of tx k c]; auto simp: UNSUPPORTED_RESP_def)+

lemma class_fuzzer_for_induct [case_names Nil Unsupported BodyRaises BodyDone]:
  assumes "\<And>k. P [] k"
    and "\<And>c cs k sw l k1. class_probe tx k c = (sw, l, k1) \<Longrightarrow> sw \<in> set UNSUPPORTED_RESP
           \<Longrightarrow> class_fuzzer_for tx body (c # cs) k = after [] l (class_fuzzer_for tx body cs k1)
           \<Longrightarrow> P cs k1 \<Longrightarrow> P (c # cs) k"
    and "\<And>c cs k sw l k1 e. class_probe tx k c = (sw, l, k1) \<Longrightarrow> sw \<notin> set UNSUPPORTED_RESP
           \<Longrightarrow> raised (body c k1) = Some e
           \<Longrightarrow> class_fuzzer_for tx body (c # cs) k = after [] l (body c k1)
           \<Longrightarrow> P (c # cs) k"
    and "\<And>c cs k sw l k1. class_probe tx k c = (sw, l, k1) \<Longrightarrow> sw \<notin> set UNSUPPORTED_RESP
           \<Longrightarrow> raised (body c k1) = None
           \<Longrightarrow> class_fuzzer_for tx body (c # cs) k =
                 after [] l (after (yielded (body c k1)) (logged (body c k1))
                   (class_fuzzer_for tx body cs (conn (body c k1))))
           \<Longrightarrow> P cs (conn (body c k1)) \<Longrightarrow> P (c # cs) k"
  shows "P cs k"
proof (induction cs arbitrary: k)
  case Nil
  show ?case by (rule assms(1))
next
  case (Cons c cs)
  obtain sw l k1 where probe: "class_probe tx k c = (sw, l, k1)"
    by (cases "class_probe tx k c") auto
  show ?case
  proof (cases "sw \<in> set UNSUPPORTED_RESP")
    case True
    show ?thesis by (rule assms(2)[OF probe True _ Cons]) (simp add: probe True)
  next
    case False
    show ?thesis
    proof (cases "raised (body c k1)")
      case None
      show ?thesis
        by (rule assms(4)[OF probe False None _ Cons]) (simp add: probe False None Let_def)
    next
      case (Some e)
      show ?thesis
        by (rule assms(3)[OF probe False Some]) (simp add: probe False Some Let_def)
    qed
  qed
qed

lemma sent_instruction_fuzzer:
  "set (sent (logged (instruction_fuzzer tx c k))) \<subseteq> {a. instruction_of a \<notin> set BAD_INSTRUCTIONS}"
  using sent_instruction_loop[of tx c range256 k]
  by (auto simp: instruction_fuzzer_def instruction_of_def)

lemma yielded_instruction_fuzzer:
  "yielded (instruction_fuzzer tx c k) =
     map fst (filter (\<lambda>p. snd p = SUCCES) (classified cur (logged (instruction_fuzzer tx c k))))"
  unfolding instruction_fuzzer_def by (rule yielded_instruction_loop)

lemma classified_instruction_fuzzer:
  "set (map fst (classified cur (logged (instruction_fuzzer tx c k)))) \<subseteq> {a. fst a = c}"
  "distinct (map fst (classified cur (logged (instruction_fuzzer tx c k))))"
  using classified_instruction_loop[of cur tx c range256 k]
  by (auto simp: instruction_fuzzer_def range256_def)

lemma sent_fuzz_loop:
  "set (sent (logged (class_fuzzer_for tx (instruction_fuzzer tx) cs k)))
     \<subseteq> {a. instruction_of a \<notin> set BAD_INSTRUCTIONS}"
proof (induction cs k rule: class_fuzzer_for_induct[where tx = tx and body = "instruction_fuzzer tx"])
  case (Nil k)
  show ?case by (simp add: finished_def)
next
  case (Unsupported c cs k sw l k1)
  note probe = Unsupported(1) and eq = Unsupported(3) and IH = Unsupported(4)
  have "instruction_of (c, 0, 0, 0) \<notin> set BAD_INSTRUCTIONS"
    by (simp add: instruction_of_def BAD_INSTRUCTIONS_def)
  then show ?case unfolding eq using IH
    by (simp add: after_def sent_append class_probe_log(1)[OF probe])
next
  case (BodyRaises c cs k sw l k1 e)
  note probe = BodyRaises(1) and eq = BodyRaises(4)
  have "instruction_of (c, 0, 0, 0) \<notin> set BAD_INSTRUCTIONS"
    by (simp add: instruction_of_def BAD_INSTRUCTIONS_def)
  then show ?case unfolding eq using sent_instruction_fuzzer[of tx c k1]
    by (simp add: after_def sent_append class_probe_log(1)[OF probe])
next
  case (BodyDone c cs k sw l k1)
  note probe = BodyDone(1) and eq = BodyDone(4) and IH = BodyDone(5)
  have "instruction_of (c, 0, 0, 0) \<notin> set BAD_INSTRUCTIONS"
    by (simp add: instruction_of_def BAD_INSTRUCTIONS_def)
  then show ?case unfolding eq using IH sent_instruction_fuzzer[of tx c k1]
    by (simp add: after_def sent_append class_probe_log(1)[OF probe])
qed

lemma yielded_fuzz_loop:
  "yielded (class_fuzzer_for tx (instruction_fuzzer tx) cs k) =
     map fst (filter (\<lambda>p. snd p = SUCCES)
       (classified cur (logged (class_fuzzer_for tx (instruction_fuzzer tx) cs k))))"
proof (induction cs k arbitrary: cur
    rule: class_fuzzer_for_induct[where tx = tx and body = "instruction_fuzzer tx"])
  case (Nil k)
  show ?case by (simp add: finished_def)
next
  case (Unsupported c cs k sw l k1)
  note probe = Unsupported(1) and eq = Unsupported(3) and IH = Unsupported(4)
  show ?case unfolding eq using IH[of "Some (c, 0, 0, 0)"]
    by (simp add: after_def classified_append class_probe_log(2,3)[OF probe])
next
  case (BodyRaises c cs k sw l k1 e)
  note probe = BodyRaises(1) and eq = BodyRaises(4)
  show ?case unfolding eq
    using yielded_instruction_fuzzer[of tx c k1 "Some (c, 0, 0, 0)"]
    by (simp add: after_def classified_append class_probe_log(2,3)[OF probe])
next
  case (BodyDone c cs k sw l k1)
  note probe = BodyDone(1) and eq = BodyDone(4) and IH = BodyDone(5)
  show ?case unfolding eq
    using yielded_instruction_fuzzer[of tx c k1 "Some (c, 0, 0, 0)"]
      IH[of "current (Some (c, 0, 0, 0)) (logged (instruction_fuzzer tx c k1))"]
    by (simp add: after_def classified_append class_probe_log(2,3)[OF probe])
qed

lemma classified_fuzz_loop:
  "set (map fst (classified cur (logged (class_fuzzer_for tx (instruction_fuzzer tx) cs k))))
     \<subseteq> {a. fst a \<in> set cs}
   \<and> (distinct cs \<longrightarrow>
        distinct (map fst (classified cur (logged (class_fuzzer_for tx (instruction_fuzzer tx) cs k)))))"
proof (induction cs k arbitrary: cur
    rule: class_fuzzer_for_induct[where tx = tx and body = "instruction_fuzzer tx"])
  case (Nil k)
  show ?case by (simp add: finished_def)
next
  case (Unsupported c cs k sw l k1)
  note probe = Unsupported(1) and eq = Unsupported(3) and IH = Unsupported(4)
  show ?case unfolding eq using IH[of "Some (c, 0, 0, 0)"]
    by (auto simp: after_def classified_append class_probe_log(2,3)[OF probe])
next
  case (BodyRaises c cs k sw l k1 e)
  note probe = BodyRaises(1) and eq = BodyRaises(4)
  show ?case unfolding eq
    using classified_instruction_fuzzer[of "Some (c, 0, 0, 0)" tx c k1]
    by (auto simp: after_def classified_append class_probe_log(2,3)[OF probe])
next
  case (BodyDone c cs k sw l k1)
  note probe = BodyDone(1) and eq = BodyDone(4) and IH = BodyDone(5)
  let ?A = "map fst (classified (Some (c, 0, 0, 0)) (logged (instruction_fuzzer tx c k1)))"
  let ?B = "map fst (classified (current (Some (c, 0, 0, 0)) (logged (instruction_fuzzer tx c k1)))
      (logged (class_fuzzer_for tx (instruction_fuzzer tx) cs (conn (instruction_fuzzer tx c k1)))))"
  have A: "set ?A \<subseteq> {a. fst a = c}" "distinct ?A"
    by (rule classified_instruction_fuzzer)+
  have B: "set ?B \<subseteq> {a. fst a \<in> set cs}" "distinct cs \<longrightarrow> distinct ?B"
    using IH by blast+
  have eqAB: "map fst (classified cur (logged (after [] l
      (after (yielded (instruction_fuzzer tx c k1)) (logged (instruction_fuzzer tx c k1))
        (class_fuzzer_for tx (instruction_fuzzer tx) cs (conn (instruction_fuzzer tx c k1))))))) = ?A @ ?B"
    by (simp add: after_def classified_append class_probe_log(2,3)[OF probe])
  have "set (?A @ ?B) \<subseteq> {a. fst a \<in> set (c # cs)}"
    using A(1) B(1) by auto
  moreover have "distinct (c # cs) \<longrightarrow> distinct (?A @ ?B)"
    using A B by auto
  ultimately show ?case unfolding eq eqAB by blast
qed


section \<open>The class enumerator\<close>

lemma class_loop_raised:
  "raised (class_fuzzer_for tx collect cs k) = None"
proof (induction cs k rule: class_fuzzer_for_induct[where tx = tx and body = collect])
  case (Nil k)
  show ?case by (simp add: finished_def)
next
  case (Unsupported c cs k sw l k1)
  then show ?case by (simp add: after_def)
next
  case (BodyRaises c cs k sw l k1 e)
  then show ?case by (simp add: after_def finished_def)
next
  case (BodyDone c cs k sw l k1)
  then show ?case by (simp add: after_def)
qed

lemma class_loop_sent:
  "sent (logged (class_fuzzer_for tx collect cs k)) = map (\<lambda>c. (c, 0, 0, 0)) cs"
proof (induction cs k rule: class_fuzzer_for_induct[where tx = tx and body = collect])
  case (Nil k)
  show ?case by (simp add: finished_def)
next
  case (Unsupported c cs k sw l k1)
  note probe = Unsupported(1) and eq = Unsupported(3) and IH = Unsupported(4)
  show ?case unfolding eq using IH by (simp add: after_def sent_append class_probe_log(1)[OF probe])
next
  case (BodyRaises c cs k sw l k1 e)
  then show ?case by (simp add: after_def finished_def)
next
  case (BodyDone c cs k sw l k1)
  note probe = BodyDone(1) and eq = BodyDone(4) and IH = BodyDone(5)
  show ?case unfolding eq using IH
    by (simp add: after_def finished_def sent_append class_probe_log(1)[OF probe])
qed

lemma class_loop_yielded_subset:
  "set (yielded (class_fuzzer_for tx collect cs k)) \<subseteq> set cs"
proof (induction cs k rule: class_fuzzer_for_induct[where tx = tx and body = collect])
  case (Nil k)
  show ?case by (simp add: finished_def)
next
  case (Unsupported c cs k sw l k1)
  note eq = Unsupported(3) and IH = Unsupported(4)
  show ?case unfolding eq using IH by (auto simp: after_def)
next
  case (BodyRaises c cs k sw l k1 e)
  then show ?case by (simp add: after_def finished_def)
next
  case (BodyDone c cs k sw l k1)
  note eq = BodyDone(4) and IH = BodyDone(5)
  show ?case unfolding eq using IH by (auto simp: after_def finished_def)
qed

lemma class_loop_yielded_iff:
  "distinct cs \<Longrightarrow>
   c \<in> set (yielded (class_fuzzer_for tx collect cs k)) \<longleftrightarrow>
     c \<in> set cs
     \<and> acknowledged tx (card_after tx k (map (\<lambda>d. (d, 0, 0, 0)) (takeWhile (\<lambda>d. d \<noteq> c) cs))) c"
proof (induction cs k rule: class_fuzzer_for_induct[where tx = tx and body = collect])
  case (Nil k)
  show ?case by (simp add: finished_def)
next
  case (Unsupported d cs k sw l k1)
  note probe = Unsupported(1) and eq = Unsupported(3) and IH = Unsupported(4)
  have no: "\<not> acknowledged tx k d"
    using class_probe_log(5)[OF probe] Unsupported(2) by (simp add: acknowledged_def)
  have k1: "k1 = snd (tx k (d, 0, 0, 0))" by (rule class_probe_log(4)[OF probe])
  from Unsupported(5) have dist: "distinct cs" "d \<notin> set cs" by simp_all
  show ?case unfolding eq using IH[OF dist(1)] no dist(2) class_loop_yielded_subset[of tx cs k1]
    by (auto simp: after_def card_after_def k1)
next
  case (BodyRaises d cs k sw l k1 e)
  then show ?case by (simp add: after_def finished_def)
next
  case (BodyDone d cs k sw l k1)
  note probe = BodyDone(1) and eq = BodyDone(4) and IH = BodyDone(5)
  have yes: "acknowledged tx k d"
    using class_probe_log(5)[OF probe] BodyDone(2) by (simp add: acknowledged_def)
  have k1: "k1 = snd (tx k (d, 0, 0, 0))" by (rule class_probe_log(4)[OF probe])
  from BodyDone(6) have dist: "distinct cs" "d \<notin> set cs" by simp_all
  have IH': "c \<in> set (yielded (class_fuzzer_for tx collect cs k1)) \<longleftrightarrow>
     c \<in> set cs
     \<and> acknowledged tx (card_after tx k1 (map (\<lambda>d. (d, 0, 0, 0)) (takeWhile (\<lambda>d. d \<noteq> c) cs))) c"
    using IH[OF dist(1)] by (simp add: after_def finished_def)
  show ?case unfolding eq using IH' yes dist(2) class_loop_yielded_subset[of tx cs k1]
    by (auto simp: after_def finished_def card_after_def k1)
qed

lemma takeWhile_upto:
  "a \<le> c \<Longrightarrow> c \<le> b \<Longrightarrow> takeWhile (\<lambda>d. d \<noteq> c) [a..b] = [a..c - 1]"
proof (induction "nat (c - a)" arbitrary: a)
  case 0
  then have "a = c" by simp
  with 0 show ?case by (simp add: upto_rec1)
next
  case (Suc n)
  then have "a < c" "a + 1 \<le> c" "n = nat (c - (a + 1))" by linarith+
  with Suc show ?case
    by (simp add: upto_rec1[of a b] upto_rec1[of a "c - 1"])
qed

lemma class_fuzzer_yielded_iff:
  "c \<in> set (yielded (class_fuzzer tx k)) \<longleftrightarrow>
     0 \<le> c \<and> c \<le> 255
     \<and> acknowledged tx (card_after tx k (map (\<lambda>d. (d, 0, 0, 0)) [0..c - 1])) c"
  unfolding class_fuzzer_def range256_def
  using class_loop_yielded_iff[of "[0..255]" c tx k] takeWhile_upto[of 0 c 255]
  by auto


section \<open>Response data\<close>

lemma same_status_step:
  assumes "same_status R tx1 tx2" and "R k1 k2"
  obtains (Raises) e1 e2 k1' k2' where "tx1 k1 a = (Inl e1, k1')" and "tx2 k2 a = (Inl e2, k2')"
      and "R k1' k2'"
  | (Returns) d1 d2 sw1 sw2 k1' k2' where "tx1 k1 a = (Inr (d1, sw1, sw2), k1')"
      and "tx2 k2 a = (Inr (d2, sw1, sw2), k2')" and "R k1' k2'"
proof -
  from assms have st: "status_of (fst (tx1 k1 a)) = status_of (fst (tx2 k2 a))"
    and R': "R (snd (tx1 k1 a)) (snd (tx2 k2 a))"
    unfolding same_status_def by blast+
  obtain r1 k1' where t1: "tx1 k1 a = (r1, k1')" by (cases "tx1 k1 a") auto
  obtain r2 k2' where t2: "tx2 k2 a = (r2, k2')" by (cases "tx2 k2 a") auto
  from R' t1 t2 have R'': "R k1' k2'" by simp
  show thesis
  proof (cases r1)
    case (Inl e1)
    with st t1 t2 obtain e2 where "r2 = Inl e2"
      by (cases r2) (auto simp: status_of_def)
    with Inl t1 t2 R'' show thesis by (intro Raises[of e1 k1' e2 k2']) simp_all
  next
    case (Inr t)
    obtain d1 sw1 sw2 where t: "t = (d1, sw1, sw2)" by (cases t) auto
    with Inr st t1 t2 obtain d2 where "r2 = Inr (d2, sw1, sw2)"
      by (cases r2) (auto simp: status_of_def)
    with Inr t t1 t2 R'' show thesis by (intro Returns[of d1 sw1 sw2 k1' d2 k2']) simp_all
  qed
qed

lemma instruction_loop_same_status:
  assumes "same_status R tx1 tx2"
  shows "R k1 k2 \<Longrightarrow>
    yielded (instruction_loop tx1 c is k1) = yielded (instruction_loop tx2 c is k2)
    \<and> (raised (instruction_loop tx1 c is k1) = None \<longleftrightarrow> raised (instruction_loop tx2 c is k2) = None)
    \<and> R (conn (instruction_loop tx1 c is k1)) (conn (instruction_loop tx2 c is k2))"
proof (induction "is" arbitrary: k1 k2)
  case Nil
  then show ?case by (simp add: finished_def)
next
  case (Cons i "is")
  show ?case
  proof (cases "i \<in> set BAD_INSTRUCTIONS")
    case True
    with Cons show ?thesis by simp
  next
    case False
    from assms Cons.prems show ?thesis
    proof (cases rule: same_status_step[where a = "(c, i, 0, 0)"])
      case (Raises e1 e2 k1' k2')
      with False show ?thesis by (simp add: send_apdu_def raise_def)
    next
      case (Returns d1 d2 sw1 sw2 k1' k2')
      from Cons.IH[OF Returns(3)] False Returns(1,2) show ?thesis
        by (cases rule: get_succes_cases[of sw1 sw2]) (simp_all add: send_apdu_def raise_def after_def Returns(3))
    qed
  qed
qed

lemma class_probe_same_status:
  assumes "same_status R tx1 tx2" and "R k1 k2"
  shows "fst (class_probe tx1 k1 c) = fst (class_probe tx2 k2 c)
    \<and> R (snd (snd (class_probe tx1 k1 c))) (snd (snd (class_probe tx2 k2 c)))"
  using assms
  by (cases rule: same_status_step[where a = "(c, 0, 0, 0)"]) (simp_all add: class_probe_def send_apdu_def)

lemma fuzz_loop_same_status:
  assumes "same_status R tx1 tx2"
  shows "R k1 k2 \<Longrightarrow>
    yielded (class_fuzzer_for tx1 (instruction_fuzzer tx1) cs k1)
      = yielded (class_fuzzer_for tx2 (instruction_fuzzer tx2) cs k2)
    \<and> (raised (class_fuzzer_for tx1 (instruction_fuzzer tx1) cs k1) = None
        \<longleftrightarrow> raised (class_fuzzer_for tx2 (instruction_fuzzer tx2) cs k2) = None)"
proof (induction cs arbitrary: k1 k2)
  case Nil
  then show ?case by (simp add: finished_def)
next
  case (Cons c cs)
  obtain sw l1 j1 where p1: "class_probe tx1 k1 c = (sw, l1, j1)"
    by (cases "class_probe tx1 k1 c") auto
  obtain sw' l2 j2 where p2: "class_probe tx2 k2 c = (sw', l2, j2)"
    by (cases "class_probe tx2 k2 c") auto
  from class_probe_same_status[OF assms Cons.prems, of c] p1 p2
  have sw: "sw' = sw" and Rj: "R j1 j2" by simp_all
  let ?r1 = "instruction_fuzzer tx1 c j1" and ?r2 = "instruction_fuzzer tx2 c j2"
  from instruction_loop_same_status[OF assms Rj, of c range256]
  have body: "yielded ?r1 = yielded ?r2" "raised ?r1 = None \<longleftrightarrow> raised ?r2 = None"
    "R (conn ?r1) (conn ?r2)"
    by (simp_all add: instruction_fuzzer_def)
  show ?case
  proof (cases "sw \<in> set UNSUPPORTED_RESP")
    case True
    with Cons.IH[OF Rj] p1 p2 sw show ?thesis by (simp add: after_def)
  next
    case False
    show ?thesis
    proof (cases "raised ?r1")
      case None
      with body(2) have None2: "raised ?r2 = None" by simp
      from Cons.IH[OF body(3)] False p1 p2 sw None None2 body(1) show ?thesis
        by (simp add: after_def Let_def)
    next
      case (Some e1)
      with body(2) obtain e2 where Some2: "raised ?r2 = Some e2" by auto
      from False p1 p2 sw Some Some2 body(1) show ?thesis
        by (simp add: after_def Let_def)
    qed
  qed
qed

section \<open>Commands that are transmitted\<close>

lemma sent_param_fuzzer_p2:
  "set (sent (logged (param_fuzzer_p2 tx c i p1 p2s k))) \<subseteq> {a. instruction_of a = i}"
proof (induction p2s arbitrary: k)
  case Nil
  show ?case by (simp add: finished_def)
next
  case (Cons p2 p2s)
  show ?case
  proof (cases rule: send_apdu_cases[of tx k c i p1 p2])
    case (Raises e k')
    then show ?thesis by (simp add: raise_def instruction_of_def)
  next
    case (Returns d sw1 sw2 k')
    with Cons[of k'] show ?thesis
      by (cases rule: get_succes_cases[of sw1 sw2])
        (auto simp: raise_def after_def instruction_of_def)
  qed
qed

lemma sent_param_fuzzer_p1:
  "set (sent (logged (param_fuzzer_p1 tx c i p1s k))) \<subseteq> {a. instruction_of a = i}"
proof (induction p1s arbitrary: k)
  case Nil
  show ?case by (simp add: finished_def)
next
  case (Cons p1 p1s)
  show ?case
    using sent_param_fuzzer_p2[of tx c i p1 range256 k]
      Cons[of "conn (param_fuzzer_p2 tx c i p1 range256 k)"]
    by (cases "raised (param_fuzzer_p2 tx c i p1 range256 k)")
      (simp_all add: Let_def after_def sent_append)
qed

text \<open>The instruction sweep sends the instructions off the blacklist in the order of the
  loop, up to the point where it ends.\<close>

lemma instruction_loop_order:
  "\<exists>n. sent (logged (instruction_loop tx c is k)) =
     take n (map (\<lambda>i. (c, i, 0, 0)) (filter (\<lambda>i. i \<notin> set BAD_INSTRUCTIONS) is))"
proof (induction "is" k rule: instruction_loop_induct[where tx = tx and c = c])
  case (Nil k)
  show ?case by (simp add: finished_def)
next
  case (Skip i "is" k)
  then show ?case by simp
next
  case (Raises i "is" k e k')
  show ?case unfolding Raises(3) using Raises(1) by (intro exI[of _ 1]) (simp add: raise_def)
next
  case (Succes i "is" k d sw1 sw2 k')
  from Succes(5) obtain n where "sent (logged (instruction_loop tx c is k')) =
     take n (map (\<lambda>i. (c, i, 0, 0)) (filter (\<lambda>i. i \<notin> set BAD_INSTRUCTIONS) is))" ..
  then show ?case unfolding Succes(4) using Succes(1)
    by (intro exI[of _ "Suc n"]) (simp add: after_def)
next
  case (Param i "is" k d sw1 sw2 k')
  show ?case unfolding Param(4) using Param(1) by (intro exI[of _ 1]) (simp add: raise_def)
next
  case (Failed i "is" k d sw1 sw2 k')
  from Failed(5) obtain n where "sent (logged (instruction_loop tx c is k')) =
     take n (map (\<lambda>i. (c, i, 0, 0)) (filter (\<lambda>i. i \<notin> set BAD_INSTRUCTIONS) is))" ..
  then show ?case unfolding Failed(4) using Failed(1)
    by (intro exI[of _ "Suc n"]) (simp add: after_def)
qed

lemma card_6D00_sends_0x25:
  "(0, 0x25, 0, 0) \<in> set (sent (logged (instruction_fuzzer card_6D00 0 ())))"
  by code_simp

text \<open>
  C4. No command that is transmitted has an instruction byte of the blacklist
  \<open>{0x20, 0x24}\<close>: not in a run of \<^verbatim>\<open>fuzz\<close>, not in an instruction sweep; the class
  enumerator only sends instruction 0x00, and the parameter enumerator only sends the
  instruction it was given.
\<close>

theorem blacklisted_instructions_never_sent:
  "(\<forall>a \<in> set (sent (logged (fuzz tx k))). instruction_of a \<notin> set BAD_INSTRUCTIONS)
   \<and> (\<forall>a \<in> set (sent (logged (instruction_fuzzer tx c k))). instruction_of a \<notin> set BAD_INSTRUCTIONS)
   \<and> (\<forall>a \<in> set (sent (logged (class_fuzzer tx k))). instruction_of a = 0x00)
   \<and> (\<forall>a \<in> set (sent (logged (param_fuzzer tx c i k))). instruction_of a = i)
   \<and> set BAD_INSTRUCTIONS = {0x20, 0x24}"
proof (intro conjI)
  show "\<forall>a \<in> set (sent (logged (fuzz tx k))). instruction_of a \<notin> set BAD_INSTRUCTIONS"
    using sent_fuzz_loop[of tx range256 k] unfolding fuzz_def by blast
  show "\<forall>a \<in> set (sent (logged (instruction_fuzzer tx c k))). instruction_of a \<notin> set BAD_INSTRUCTIONS"
    using sent_instruction_fuzzer[of tx c k] by blast
  show "\<forall>a \<in> set (sent (logged (class_fuzzer tx k))). instruction_of a = 0x00"
    unfolding class_fuzzer_def by (auto simp: class_loop_sent instruction_of_def)
  show "\<forall>a \<in> set (sent (logged (param_fuzzer tx c i k))). instruction_of a = i"
    using sent_param_fuzzer_p1[of tx c i range256 k] unfolding param_fuzzer_def by blast
  show "set BAD_INSTRUCTIONS = {0x20, 0x24}"
    by (simp add: BAD_INSTRUCTIONS_def)
qed

theorem blacklisted_instructions_never_sent_witness:
  "(0, 0x25, 0, 0) \<in> set (sent (logged (instruction_fuzzer card_6D00 0 ())))
   \<and> instruction_of (0, 0x25, 0, 0) \<notin> set BAD_INSTRUCTIONS"
  using blacklisted_instructions_never_sent[of card_6D00 "()" 0 0] card_6D00_sends_0x25
  by blast

section \<open>What is yielded\<close>

lemma card_mixed_classified:
  "classified None (logged (fuzz card_mixed ())) =
     [((0, 0, 0, 0), SUCCES), ((0, 1, 0, 0), FAILED), ((0, 2, 0, 0), PARAM_FAIL)]"
  by code_simp

text \<open>
  C5. \<^verbatim>\<open>fuzz\<close> yields a command exactly when the probe of that command was classified
  \<open>SUCCES\<close>; a command whose probe was classified \<open>FAILED\<close>, or \<open>PARAM_FAIL\<close>, is not
  in the output.
\<close>

theorem fuzz_yields_iff_classified_succes:
  "(a \<in> set (yielded (fuzz tx k)) \<longleftrightarrow> (a, SUCCES) \<in> set (classified None (logged (fuzz tx k))))
   \<and> ((a, FAILED) \<in> set (classified None (logged (fuzz tx k))) \<longrightarrow> a \<notin> set (yielded (fuzz tx k)))
   \<and> ((a, PARAM_FAIL) \<in> set (classified None (logged (fuzz tx k))) \<longrightarrow> a \<notin> set (yielded (fuzz tx k)))"
proof -
  let ?cl = "classified None (logged (fuzz tx k))"
  have y: "yielded (fuzz tx k) = map fst (filter (\<lambda>p. snd p = SUCCES) ?cl)"
    unfolding fuzz_def by (rule yielded_fuzz_loop)
  have d: "distinct (map fst ?cl)"
    using classified_fuzz_loop[of None tx range256 k] unfolding fuzz_def
    by (simp add: range256_def)
  have iff: "a \<in> set (yielded (fuzz tx k)) \<longleftrightarrow> (a, SUCCES) \<in> set ?cl"
    unfolding y by force
  have one: "\<And>s. (a, s) \<in> set ?cl \<Longrightarrow> (a, SUCCES) \<in> set ?cl \<Longrightarrow> s = SUCCES"
    using d by (rule eq_key_imp_eq_value)
  from iff one show ?thesis by blast
qed

theorem fuzz_yields_iff_classified_succes_witness:
  "((0, 1, 0, 0), FAILED) \<in> set (classified None (logged (fuzz card_mixed ())))
   \<and> (0, 1, 0, 0) \<notin> set (yielded (fuzz card_mixed ()))
   \<and> ((0, 2, 0, 0), PARAM_FAIL) \<in> set (classified None (logged (fuzz card_mixed ())))
   \<and> (0, 2, 0, 0) \<notin> set (yielded (fuzz card_mixed ()))
   \<and> (0, 0, 0, 0) \<in> set (yielded (fuzz card_mixed ()))"
  using fuzz_yields_iff_classified_succes[of "(0, 1, 0, 0)" card_mixed "()"]
    fuzz_yields_iff_classified_succes[of "(0, 2, 0, 0)" card_mixed "()"]
    fuzz_yields_iff_classified_succes[of "(0, 0, 0, 0)" card_mixed "()"]
  by (simp add: card_mixed_classified)

text \<open>
  C6. The class enumerator never raises and probes all of 0..255 with the command
  \<open>(c, 0, 0, 0)\<close>; it yields \<open>c\<close> exactly when \<open>c\<close> is a byte and the transmission of
  its probe, on the connection left by the probes of the classes below \<open>c\<close>, returned a
  status pair other than (0x6E, 0x00). A transmission that raises yields nothing.
\<close>

theorem class_fuzzer_yields_acknowledged:
  "raised (class_fuzzer tx k) = None
   \<and> sent (logged (class_fuzzer tx k)) = map (\<lambda>c. (c, 0, 0, 0)) [0..255]
   \<and> (c \<in> set (yielded (class_fuzzer tx k)) \<longleftrightarrow>
        0 \<le> c \<and> c \<le> 255
        \<and> (case fst (tx (card_after tx k (map (\<lambda>d. (d, 0, 0, 0)) [0..c - 1])) (c, 0, 0, 0)) of
             Inl e \<Rightarrow> False
           | Inr (response, sw1, sw2) \<Rightarrow> (sw1, sw2) \<noteq> (0x6E, 0x00)))"
  using class_fuzzer_yielded_iff[of c tx k] class_loop_raised[of tx range256 k]
    class_loop_sent[of tx range256 k]
  by (simp add: class_fuzzer_def range256_def acknowledged_def)

theorem class_fuzzer_yields_acknowledged_witness:
  "0x80 \<in> set (yielded (class_fuzzer card_classes ()))
   \<and> 0x05 \<notin> set (yielded (class_fuzzer card_classes ()))
   \<and> 0x06 \<notin> set (yielded (class_fuzzer card_classes ()))
   \<and> 0x07 \<notin> set (yielded (class_fuzzer card_classes ()))
   \<and> raised (class_fuzzer card_classes ()) = None"
  using class_fuzzer_yields_acknowledged[of card_classes "()" "0x80"]
    class_fuzzer_yields_acknowledged[of card_classes "()" "0x05"]
    class_fuzzer_yields_acknowledged[of card_classes "()" "0x06"]
    class_fuzzer_yields_acknowledged[of card_classes "()" "0x07"]
  by (simp add: card_classes_def)

text \<open>
  C10. Two cards that answer with the same status words, whatever their response data,
  make \<^verbatim>\<open>fuzz\<close> yield the same commands.
\<close>

theorem fuzz_independent_of_response_data:
  assumes "same_status R tx1 tx2" and "R k1 k2"
  shows "yielded (fuzz tx1 k1) = yielded (fuzz tx2 k2)"
  using fuzz_loop_same_status[OF assms, of range256] unfolding fuzz_def by blast

theorem fuzz_independent_of_response_data_witness:
  "same_status (\<lambda>k1 k2. True) scenario_D scenario_D_data
   \<and> yielded (fuzz scenario_D ()) = yielded (fuzz scenario_D_data 0)"
proof -
  have h: "same_status (\<lambda>k1 k2. True) scenario_D scenario_D_data"
    by (simp add: same_status_def scenario_D_def scenario_D_data_def status_of_def split: prod.splits)
  from h fuzz_independent_of_response_data[OF h, of "()" 0] show ?thesis by simp
qed

section \<open>Connection timeout\<close>

text \<open>
  C8. When waiting for the card times out, the constructor raises
  \<^verbatim>\<open>CardRequestTimeoutException\<close>; with the default timeout of 30, \<^verbatim>\<open>main\<close> ends with
  that exception, having printed nothing and logged no transmission.
\<close>

theorem connection_timeout_before_any_probe:
  assumes "waitforcard t = Inl CardRequestTimeoutException"
  shows "init waitforcard connect t = Inl CardRequestTimeoutException
    \<and> (t = 30 \<longrightarrow> main waitforcard connect tx = ([], Some CardRequestTimeoutException, []))"
  using assms by (auto simp: main_def init_def get_card_def)

theorem connection_timeout_before_any_probe_witness:
  "late_card 30 = Inl CardRequestTimeoutException
   \<and> init late_card (\<lambda>s. Inr ()) 30 = (Inl CardRequestTimeoutException :: exn + unit fuzzer)
   \<and> main late_card (\<lambda>s. Inr ()) card_9000 = ([], Some CardRequestTimeoutException, [])"
proof -
  have h: "late_card 30 = Inl CardRequestTimeoutException" by (simp add: late_card_def)
  from h connection_timeout_before_any_probe[where waitforcard = late_card and t = 30
      and connect = "\<lambda>s::unit. Inr ()" and tx = card_9000]
  show ?thesis by simp
qed

section \<open>Runs that stop early\<close>

text \<open>The parameter enumerator yields nothing, on any card.\<close>

lemma param_fuzzer_p2_never_yields:
  "yielded (param_fuzzer_p2 tx c i p1 p2s k) = []"
proof (induction p2s arbitrary: k)
  case Nil
  show ?case by (simp add: finished_def)
next
  case (Cons p2 p2s)
  show ?case
  proof (cases rule: send_apdu_cases[of tx k c i p1 p2])
    case (Raises e k')
    then show ?thesis by (simp add: raise_def)
  next
    case (Returns d sw1 sw2 k')
    with Cons[of k'] show ?thesis
      by (cases rule: get_succes_cases[of sw1 sw2]) (simp_all add: raise_def after_def)
  qed
qed

lemma param_fuzzer_p1_never_yields:
  "yielded (param_fuzzer_p1 tx c i p1s k) = []"
proof (induction p1s arbitrary: k)
  case Nil
  show ?case by (simp add: finished_def)
next
  case (Cons p1 p1s)
  show ?case
    using param_fuzzer_p2_never_yields[of tx c i p1 range256 k]
      Cons[of "conn (param_fuzzer_p2 tx c i p1 range256 k)"]
    by (cases "raised (param_fuzzer_p2 tx c i p1 range256 k)") (simp_all add: Let_def after_def)
qed

lemma param_fuzzer_never_yields: "yielded (param_fuzzer tx c i k) = []"
  unfolding param_fuzzer_def by (rule param_fuzzer_p1_never_yields)

lemma scenario_B_fuzz_run:
  "yielded (fuzz scenario_B ()) = [] \<and> raised (fuzz scenario_B ()) = Some AttributeError"
  by code_simp

lemma scenario_B_param_fuzzer_run:
  "yielded (param_fuzzer scenario_B 0x80 0x10 ()) = []
   \<and> raised (param_fuzzer scenario_B 0x80 0x10 ()) = Some NameError"
  by code_simp

text \<open>
  C1. On the card of scenario B, \<^verbatim>\<open>fuzz\<close> yields nothing and ends with
  \<^verbatim>\<open>AttributeError\<close> at the parameter failure of instruction 0x10: the parameter
  enumerator is never entered. Called directly for (0x80, 0x10), the parameter enumerator
  yields nothing either and ends with \<^verbatim>\<open>NameError\<close> at the first success.
\<close>

theorem scenario_B_yields_nothing:
  "yielded (fuzz scenario_B ()) = []
   \<and> raised (fuzz scenario_B ()) = Some AttributeError
   \<and> yielded (param_fuzzer scenario_B 0x80 0x10 ()) = []
   \<and> raised (param_fuzzer scenario_B 0x80 0x10 ()) = Some NameError"
  using scenario_B_fuzz_run scenario_B_param_fuzzer_run by simp

text \<open>
  C3. On the card of scenario D, the instruction sweep of class 0 ends with the exception
  of the transmission of instruction 0x05: instruction 0x06 is never sent.
\<close>

theorem instruction_fuzzer_scenario_D_raises:
  "yielded (instruction_fuzzer scenario_D 0 ()) =
     [(0, 0, 0, 0), (0, 1, 0, 0), (0, 2, 0, 0), (0, 3, 0, 0), (0, 4, 0, 0)]
   \<and> raised (instruction_fuzzer scenario_D 0 ()) = Some SWException
   \<and> sent (logged (instruction_fuzzer scenario_D 0 ())) =
     [(0, 0, 0, 0), (0, 1, 0, 0), (0, 2, 0, 0), (0, 3, 0, 0), (0, 4, 0, 0), (0, 5, 0, 0)]"
  by code_simp

text \<open>
  C7. On a card that answers (0x90, 0x00) to everything, the parameter enumerator sends
  the first of the 65536 pairs only, yields nothing and ends with \<^verbatim>\<open>NameError\<close>.
\<close>

theorem param_fuzzer_card_9000_raises:
  "yielded (param_fuzzer card_9000 0 0 ()) = []
   \<and> raised (param_fuzzer card_9000 0 0 ()) = Some NameError
   \<and> sent (logged (param_fuzzer card_9000 0 0 ())) = [(0, 0, 0, 0)]"
  by code_simp

end
